theory Spec2Isabelle
  imports Complex_Main "HOL-Library.Char_ord" "HOL-Library.List_Lexorder"
    "HOL-Library.Option_ord"
begin

section \<open>JavaScript values\<close>

text \<open>
  The ledger core of cashflow is TypeScript over a SQLite store. A JavaScript
  \<open>number\<close> is an IEEE double; the model computes with exact rationals, so every
  statement about amounts is a statement about the arithmetic as it is written,
  without the rounding error of the double operations. A \<open>string | null\<close> is a
  \<open>string option\<close>. A \<open>string\<close> is a list of 8-bit characters, standing for the
  code units below 256; the tests of the source on single characters (a comma, a
  double quote, a line break, white space) are tests on such units.
\<close>

type_synonym number = rat

text \<open>\<open>a || b\<close> on \<open>string | null\<close>: null and the empty string are both falsy.\<close>

fun js_or :: "string option \<Rightarrow> string \<Rightarrow> string" where
  "js_or None b = b"
| "js_or (Some a) b = (if a = [] then b else a)"


text \<open>\<open>xs.join(sep)\<close>.\<close>

fun join :: "string \<Rightarrow> string list \<Rightarrow> string" where
  "join sep [] = []"
| "join sep [x] = x"
| "join sep (x # y # ys) = x @ sep @ join sep (y # ys)"

text \<open>\<open>s.replace(/"/g, '""')\<close>: every double quote (character 0x22) is doubled.\<close>

definition replace_quotes :: "string \<Rightarrow> string" where
  "replace_quotes s = concat (map (\<lambda>c. if c = CHR 0x22 then [CHR 0x22, CHR 0x22] else [c]) s)"

text \<open>\<open>s.includes(c)\<close> for a one-character needle.\<close>

definition js_includes :: "string \<Rightarrow> char \<Rightarrow> bool" where
  "js_includes s c = (c \<in> set s)"

section \<open>types/index.ts\<close>

text \<open>
  The argument of \<open>upsertTransactions\<close> has the thirteen upstream columns of a
  transaction; the stored row (class \<open>Transaction\<close>) has the local \<open>tag\<close> as well.
\<close>

record TransactionInput =
  transaction_id :: string
  account_id :: string
  amount :: number
  iso_currency_code :: "string option"
  date :: string
  name :: string
  merchant_name :: "string option"
  pending :: int
  category :: "string option"
  subcategory :: "string option"
  payment_channel :: "string option"
  transaction_type :: "string option"
  authorized_date :: "string option"

record Transaction = TransactionInput +
  tag :: "string option"

definition isIncome :: "Transaction \<Rightarrow> bool" where
  "isIncome t = (amount t < 0)"

definition displayName :: "Transaction \<Rightarrow> string" where
  "displayName t = js_or (merchant_name t) (name t)"

definition isPending :: "Transaction \<Rightarrow> bool" where
  "isPending t = (pending t = 1)"

record TransactionResponse =
  tr_transaction_id :: string
  tr_account_id :: string
  tr_amount :: number
  tr_date :: string
  tr_name :: string
  tr_merchant_name :: "string option"
  tr_pending :: bool
  tr_category :: "string option"
  tr_subcategory :: "string option"
  tr_payment_channel :: "string option"
  tr_tag :: "string option"




datatype error =
    ConfigError string
  | PlaidApiError string
  | SyncError string
  | SqliteError string
  | SyntaxError string

section \<open>core/export.ts\<close>

definition CSV_HEADERS :: "string list" where
  "CSV_HEADERS =
    [''transaction_id'', ''account_id'', ''date'', ''name'', ''merchant_name'', ''amount'',
     ''category'', ''subcategory'', ''tag'', ''pending'', ''payment_channel'']"

text \<open>The values \<open>escapeCsv\<close> receives: \<open>string | null | boolean | number\<close>.\<close>

datatype csv_value = Null | Str string | Bool bool | Num number

fun nullable :: "string option \<Rightarrow> csv_value" where
  "nullable None = Null"
| "nullable (Some s) = Str s"

text \<open>
  \<open>String(value)\<close>. The decimal text of a number is JavaScript's
  \<open>Number::toString\<close>, a parameter of the model.
\<close>

fun js_String :: "(number \<Rightarrow> string) \<Rightarrow> csv_value \<Rightarrow> string" where
  "js_String num Null = ''null''"
| "js_String num (Str s) = s"
| "js_String num (Bool b) = (if b then ''true'' else ''false'')"
| "js_String num (Num x) = num x"

definition escapeCsv :: "(number \<Rightarrow> string) \<Rightarrow> csv_value \<Rightarrow> string" where
  "escapeCsv num v =
    (if v = Null then []
     else let str = js_String num v in
       if js_includes str CHR '','' \<or> js_includes str CHR 0x22 \<or> js_includes str CHR 0x0A
           \<or> js_includes str CHR 0x0D
       then [CHR 0x22] @ replace_quotes str @ [CHR 0x22]
       else str)"

definition csv_fields :: "TransactionResponse \<Rightarrow> csv_value list" where
  "csv_fields t =
    [Str (tr_transaction_id t), Str (tr_account_id t), Str (tr_date t), Str (tr_name t),
     nullable (tr_merchant_name t), Num (tr_amount t), nullable (tr_category t),
     nullable (tr_subcategory t), nullable (tr_tag t), Bool (tr_pending t),
     nullable (tr_payment_channel t)]"

definition csv_row :: "(number \<Rightarrow> string) \<Rightarrow> TransactionResponse \<Rightarrow> string" where
  "csv_row num t = join '','' (map (escapeCsv num) (csv_fields t))"

definition exportCsv :: "(number \<Rightarrow> string) \<Rightarrow> TransactionResponse list \<Rightarrow> string" where
  "exportCsv num transactions =
    (let lines = [join '','' CSV_HEADERS] @ map (csv_row num) transactions
     in join [CHR 0x0A] lines @ [CHR 0x0A])"

section \<open>core/reports.ts\<close>



section \<open>core/db.ts\<close>

text \<open>
  The SQLite store is a record of its tables, each table the list of its rows in
  insertion order. Every writer takes the store and returns the new one. A writer
  that SQLite can refuse returns \<open>error + db\<close>: it runs inside a transaction, so
  on \<open>Inl\<close> nothing of it is applied and the caller is left with the store it
  passed in. \<open>datetime('now')\<close> is the parameter \<open>now\<close>.
\<close>

record AccountInput =
  a_account_id :: string
  a_item_id :: string
  a_name :: string
  a_official_name :: "string option"
  a_type :: string
  a_subtype :: "string option"
  a_mask :: "string option"
  a_current_balance :: "number option"
  a_available_balance :: "number option"
  a_iso_currency_code :: "string option"

record Account = AccountInput +
  updated_at :: string

record SyncState =
  item_id :: string
  cursor :: string
  last_synced_at :: string

record TagRule =
  r_id :: int
  r_pattern :: string
  r_tag :: string
  r_priority :: int
  r_created_at :: string

record Budget =
  b_id :: int
  b_tag :: string
  b_monthly_limit :: number
  b_alert_threshold :: number

record db =
  accounts :: "Account list"
  transactions :: "Transaction list"
  sync_state :: "SyncState list"
  tag_rules :: "TagRule list"
  budgets :: "Budget list"

text \<open>
  \<open>INSERT ... ON CONFLICT(key) DO UPDATE SET ...\<close>: the row that has the key is
  updated in place, and a key that no row has is inserted as a new last row.
\<close>

fun sql_upsert :: "('r \<Rightarrow> bool) \<Rightarrow> ('r \<Rightarrow> 'r) \<Rightarrow> 'r \<Rightarrow> 'r list \<Rightarrow> 'r list" where
  "sql_upsert conflict upd new [] = [new]"
| "sql_upsert conflict upd new (r # rs) =
     (if conflict r then upd r # rs else r # sql_upsert conflict upd new rs)"

text \<open>A loop of statements in one transaction: the first refusal ends it.\<close>

fun run_all :: "('a \<Rightarrow> 's \<Rightarrow> error + 's) \<Rightarrow> 'a list \<Rightarrow> 's \<Rightarrow> error + 's" where
  "run_all f [] s = Inr s"
| "run_all f (x # xs) s = (case f x s of Inl e \<Rightarrow> Inl e | Inr s' \<Rightarrow> run_all f xs s')"

text \<open>
  The \<open>DO UPDATE SET\<close> clause of \<open>upsertAccounts\<close>: every column of the argument
  but \<open>account_id\<close> and \<open>item_id\<close>, and \<open>updated_at\<close>.
\<close>

definition account_conflict_update :: "string \<Rightarrow> AccountInput \<Rightarrow> Account \<Rightarrow> Account" where
  "account_conflict_update now a r =
    r\<lparr>a_name := a_name a,
      a_official_name := a_official_name a,
      a_type := a_type a,
      a_subtype := a_subtype a,
      a_mask := a_mask a,
      a_current_balance := a_current_balance a,
      a_available_balance := a_available_balance a,
      a_iso_currency_code := a_iso_currency_code a,
      updated_at := now\<rparr>"

text \<open>One \<open>stmt.run\<close> of \<open>upsertAccounts\<close>.\<close>

definition upsert_account :: "string \<Rightarrow> AccountInput \<Rightarrow> db \<Rightarrow> db" where
  "upsert_account now a d =
    d\<lparr>accounts :=
      sql_upsert (\<lambda>r. a_account_id r = a_account_id a)
        (account_conflict_update now a)
        (AccountInput.extend a (Account.fields now))
        (accounts d)\<rparr>"

definition upsertAccounts :: "string \<Rightarrow> AccountInput list \<Rightarrow> db \<Rightarrow> db" where
  "upsertAccounts now as d = fold (upsert_account now) as d"

text \<open>
  The \<open>DO UPDATE SET\<close> clause of \<open>upsertTransactions\<close>: every column of the
  argument but \<open>transaction_id\<close>. The row's \<open>tag\<close> is not in the clause.
\<close>

definition transaction_conflict_update :: "TransactionInput \<Rightarrow> Transaction \<Rightarrow> Transaction" where
  "transaction_conflict_update t r =
    r\<lparr>account_id := account_id t,
      amount := amount t,
      iso_currency_code := iso_currency_code t,
      date := date t,
      name := name t,
      merchant_name := merchant_name t,
      pending := pending t,
      category := category t,
      subcategory := subcategory t,
      payment_channel := payment_channel t,
      transaction_type := transaction_type t,
      authorized_date := authorized_date t\<rparr>"

text \<open>
  One \<open>stmt.run\<close> of \<open>upsertTransactions\<close>. \<open>transactions.account_id\<close> references
  \<open>accounts(account_id)\<close> and \<open>initDb\<close> sets \<open>PRAGMA foreign_keys = ON\<close>: SQLite
  refuses a row whose account is not stored. The \<open>INSERT\<close> names no \<open>tag\<close>, so a
  new row has none.
\<close>

definition upsert_transaction :: "TransactionInput \<Rightarrow> db \<Rightarrow> error + db" where
  "upsert_transaction t d =
    (if account_id t \<in> set (map a_account_id (accounts d))
     then Inr (d\<lparr>transactions :=
       sql_upsert (\<lambda>r. transaction_id r = transaction_id t)
         (transaction_conflict_update t)
         (TransactionInput.extend t (Transaction.fields None))
         (transactions d)\<rparr>)
     else Inl (SqliteError ''FOREIGN KEY constraint failed''))"

definition upsertTransactions :: "TransactionInput list \<Rightarrow> db \<Rightarrow> error + db" where
  "upsertTransactions ts d = run_all upsert_transaction ts d"

definition delete_transaction :: "string \<Rightarrow> db \<Rightarrow> db" where
  "delete_transaction tid d =
    d\<lparr>transactions := filter (\<lambda>r. transaction_id r \<noteq> tid) (transactions d)\<rparr>"

definition removeTransactions :: "string list \<Rightarrow> db \<Rightarrow> db" where
  "removeTransactions transactionIds d =
    (if transactionIds = [] then d else fold delete_transaction transactionIds d)"



definition getSyncState :: "string \<Rightarrow> db \<Rightarrow> SyncState option" where
  "getSyncState itemId d = find (\<lambda>s. item_id s = itemId) (sync_state d)"

definition setSyncState :: "string \<Rightarrow> string \<Rightarrow> string \<Rightarrow> db \<Rightarrow> db" where
  "setSyncState now itemId cur d =
    d\<lparr>sync_state :=
      sql_upsert (\<lambda>s. item_id s = itemId)
        (\<lambda>s. s\<lparr>cursor := cur, last_synced_at := now\<rparr>)
        \<lparr>item_id = itemId, cursor = cur, last_synced_at = now\<rparr>
        (sync_state d)\<rparr>"






section \<open>core/reports.ts: the burn report\<close>


section \<open>core/budgets.ts\<close>




section \<open>core/tags.ts\<close>



text \<open>\<open>[txn.merchant_name, txn.name].filter(Boolean).join(" ")\<close>.\<close>

definition haystack :: "Transaction \<Rightarrow> string" where
  "haystack txn =
    join '' '' (filter (\<lambda>s. s \<noteq> [])
      ((case merchant_name txn of None \<Rightarrow> [] | Some m \<Rightarrow> [m]) @ [name txn]))"



section \<open>core/db.ts: full-text search\<close>









section \<open>The FTS5 query syntax\<close>




section \<open>core/sync.ts\<close>

text \<open>The records of the Plaid feed, with the fields \<open>sync.ts\<close> reads.\<close>

record PersonalFinanceCategory =
  primary :: "string option"
  detailed :: "string option"

record PlaidTransaction =
  p_transaction_id :: string
  p_account_id :: string
  p_amount :: number
  p_iso_currency_code :: "string option"
  p_date :: string
  p_name :: string
  p_merchant_name :: "string option"
  p_pending :: bool
  p_category :: "string list option"
  p_personal_finance_category :: "PersonalFinanceCategory option"
  p_payment_channel :: string
  p_transaction_type :: "string option"
  p_authorized_date :: "string option"

record PlaidBalances =
  bal_current :: "number option"
  bal_available :: "number option"
  bal_iso_currency_code :: "string option"

record PlaidAccount =
  pa_account_id :: string
  pa_name :: string
  pa_official_name :: "string option"
  pa_type :: string
  pa_subtype :: "string option"
  pa_mask :: "string option"
  pa_balances :: PlaidBalances

record SyncPage =
  added :: "PlaidTransaction list"
  modified :: "PlaidTransaction list"
  removed :: "string option list"
  pg_accounts :: "PlaidAccount list"
  has_more :: bool
  next_cursor :: string

record SyncResponse =
  n_added :: nat
  n_modified :: nat
  n_removed :: nat
  res_cursor :: string
  res_has_more :: bool

text \<open>
  \<open>plaid.transactionsSync\<close>, by access token and cursor (\<open>None\<close> for
  \<open>undefined\<close>): \<open>Inl\<close> the message of the error a failed request throws.
\<close>

type_synonym PlaidClient = "string \<Rightarrow> string option \<Rightarrow> string + SyncPage"

text \<open>\<open>t.category?.[i] || null\<close>.\<close>

definition category_at :: "string list option \<Rightarrow> nat \<Rightarrow> string option" where
  "category_at cs i =
    (case cs of
       None \<Rightarrow> None
     | Some xs \<Rightarrow> if i < length xs \<and> xs ! i \<noteq> [] then Some (xs ! i) else None)"

text \<open>\<open>a ?? b\<close>.\<close>

fun nullish :: "'a option \<Rightarrow> 'a option \<Rightarrow> 'a option" where
  "nullish None b = b"
| "nullish (Some a) b = Some a"

definition mapPlaidTransaction :: "PlaidTransaction \<Rightarrow> TransactionInput" where
  "mapPlaidTransaction t =
    (let pfc = p_personal_finance_category t in
     \<lparr>transaction_id = p_transaction_id t,
      account_id = p_account_id t,
      amount = p_amount t,
      iso_currency_code = p_iso_currency_code t,
      date = p_date t,
      name = js_or (p_merchant_name t) (p_name t),
      merchant_name = p_merchant_name t,
      pending = (if p_pending t then 1 else 0),
      category = nullish (case pfc of None \<Rightarrow> None | Some c \<Rightarrow> primary c)
                   (category_at (p_category t) 0),
      subcategory = nullish (case pfc of None \<Rightarrow> None | Some c \<Rightarrow> detailed c)
                      (category_at (p_category t) 1),
      payment_channel = Some (p_payment_channel t),
      transaction_type = p_transaction_type t,
      authorized_date = p_authorized_date t\<rparr>)"

definition map_account :: "string \<Rightarrow> PlaidAccount \<Rightarrow> AccountInput" where
  "map_account itemId a =
    \<lparr>a_account_id = pa_account_id a,
     a_item_id = itemId,
     a_name = pa_name a,
     a_official_name = pa_official_name a,
     a_type = pa_type a,
     a_subtype = pa_subtype a,
     a_mask = pa_mask a,
     a_current_balance = bal_current (pa_balances a),
     a_available_balance = bal_available (pa_balances a),
     a_iso_currency_code = bal_iso_currency_code (pa_balances a)\<rparr>"

text \<open>What one pass accumulates: \<open>allAdded\<close>, \<open>allModified\<close>, \<open>allRemoved\<close>.\<close>

record Batch =
  allAdded :: "PlaidTransaction list"
  allModified :: "PlaidTransaction list"
  allRemoved :: "string list"

definition removed_ids :: "SyncPage \<Rightarrow> string list" where
  "removed_ids data = concat (map (\<lambda>r. case r of None \<Rightarrow> [] | Some i \<Rightarrow> [i]) (removed data))"

definition accumulate :: "SyncPage \<Rightarrow> Batch \<Rightarrow> Batch" where
  "accumulate data b =
    \<lparr>allAdded = allAdded b @ added data,
     allModified = allModified b @ modified data,
     allRemoved = allRemoved b @ removed_ids data\<rparr>"

definition upsert_page_accounts :: "string \<Rightarrow> string \<Rightarrow> SyncPage \<Rightarrow> db \<Rightarrow> db" where
  "upsert_page_accounts now itemId data d =
    (if pg_accounts data \<noteq> []
     then upsertAccounts now (map (map_account itemId) (pg_accounts data)) d
     else d)"

text \<open>\<open>cursor || undefined\<close>: the empty cursor is sent as no cursor.\<close>

definition cursor_arg :: "string \<Rightarrow> string option" where
  "cursor_arg cur = (if cur = [] then None else Some cur)"

text \<open>
  The \<open>while (hasMore)\<close> loop inside the \<open>try\<close>. It need not end: a feed can answer
  \<open>has_more\<close> forever, and then the loop has no value (\<open>None\<close>). A request that
  throws ends it with \<open>Inl\<close> the message; the store then holds the account
  upserts of the pages before.
\<close>

partial_function (option) sync_loop ::
  "PlaidClient \<Rightarrow> string \<Rightarrow> string \<Rightarrow> string \<Rightarrow> string \<Rightarrow> Batch \<Rightarrow> db
    \<Rightarrow> ((string + Batch \<times> string) \<times> db) option" where
  "sync_loop plaid now accessToken itemId cur b d =
    (case plaid accessToken (cursor_arg cur) of
       Inl msg \<Rightarrow> Some (Inl msg, d)
     | Inr data \<Rightarrow>
         if has_more data
         then sync_loop plaid now accessToken itemId (next_cursor data) (accumulate data b)
                (upsert_page_accounts now itemId data d)
         else Some (Inr (accumulate data b, next_cursor data),
                upsert_page_accounts now itemId data d))"

declare sync_loop.simps [code]

text \<open>The body of the closing \<open>db.transaction\<close>: any refusal rolls all of it back.\<close>

definition commit_batch :: "string \<Rightarrow> string \<Rightarrow> Batch \<Rightarrow> string \<Rightarrow> db \<Rightarrow> error + db" where
  "commit_batch now itemId b cur d =
    (case (if allAdded b \<noteq> [] then upsertTransactions (map mapPlaidTransaction (allAdded b)) d
           else Inr d) of
       Inl e \<Rightarrow> Inl e
     | Inr d1 \<Rightarrow>
        (case (if allModified b \<noteq> []
               then upsertTransactions (map mapPlaidTransaction (allModified b)) d1
               else Inr d1) of
           Inl e \<Rightarrow> Inl e
         | Inr d2 \<Rightarrow>
            Inr (setSyncState now itemId cur
                  (if allRemoved b \<noteq> [] then removeTransactions (allRemoved b) d2 else d2))))"

definition start_cursor :: "string \<Rightarrow> db \<Rightarrow> string" where
  "start_cursor itemId d = (case getSyncState itemId d of None \<Rightarrow> [] | Some st \<Rightarrow> cursor st)"

definition empty_batch :: Batch where
  "empty_batch = \<lparr>allAdded = [], allModified = [], allRemoved = []\<rparr>"

text \<open>
  \<open>syncItem\<close>: what it returns or throws, and the store it leaves. \<open>None\<close> when the
  loop does not end.
\<close>

definition syncItem ::
  "PlaidClient \<Rightarrow> string \<Rightarrow> string \<Rightarrow> string \<Rightarrow> db \<Rightarrow> ((error + SyncResponse) \<times> db) option" where
  "syncItem plaid now accessToken itemId d =
    (case sync_loop plaid now accessToken itemId (start_cursor itemId d) empty_batch d of
       None \<Rightarrow> None
     | Some (Inl msg, d1) \<Rightarrow>
         Some (Inl (SyncError (''Sync failed for item '' @ itemId @ '': '' @ msg)), d1)
     | Some (Inr (b, cur), d1) \<Rightarrow>
         (case commit_batch now itemId b cur d1 of
            Inl e \<Rightarrow> Some (Inl e, d1)
          | Inr d2 \<Rightarrow>
              Some (Inr \<lparr>n_added = length (allAdded b),
                         n_modified = length (allModified b),
                         n_removed = length (allRemoved b),
                         res_cursor = cur,
                         res_has_more = False\<rparr>, d2)))"

text \<open>The \<open>for (const item of items)\<close> loop of \<open>syncAll\<close>, with its running totals.\<close>

fun sync_items ::
  "PlaidClient \<Rightarrow> string \<Rightarrow> (string \<times> string) list \<Rightarrow> SyncResponse \<Rightarrow> db
    \<Rightarrow> ((error + SyncResponse) \<times> db) option" where
  "sync_items plaid now [] acc d = Some (Inr acc, d)"
| "sync_items plaid now (item # items) acc d =
     (case syncItem plaid now (fst item) (snd item) d of
        None \<Rightarrow> None
      | Some (Inl e, d1) \<Rightarrow> Some (Inl e, d1)
      | Some (Inr result, d1) \<Rightarrow>
          sync_items plaid now items
            \<lparr>n_added = n_added acc + n_added result,
             n_modified = n_modified acc + n_modified result,
             n_removed = n_removed acc + n_removed result,
             res_cursor = res_cursor result,
             res_has_more = False\<rparr> d1)"

text \<open>
  \<open>syncAll\<close>. \<open>getDecryptedAccessTokens()\<close> is the parameter \<open>items\<close>, each an
  access token and an item id. The totals start at zero.
\<close>

definition zero_totals :: SyncResponse where
  "zero_totals =
    \<lparr>n_added = 0, n_modified = 0, n_removed = 0, res_cursor = [], res_has_more = False\<rparr>"

definition syncAll ::
  "PlaidClient \<Rightarrow> string \<Rightarrow> (string \<times> string) list \<Rightarrow> db \<Rightarrow> ((error + SyncResponse) \<times> db) option" where
  "syncAll plaid now items d =
    (if items = []
     then Some (Inl (SyncError (''No linked accounts. Run '' @ [CHR 0x60] @ ''cashflow link''
                  @ [CHR 0x60] @ '' first.'')), d)
     else sync_items plaid now items zero_totals d)"

section \<open>The formulas of the specification\<close>




text \<open>The last argument of a batch that has a given transaction id.\<close>

definition last_with_id :: "string \<Rightarrow> TransactionInput list \<Rightarrow> TransactionInput option" where
  "last_with_id k ts = find (\<lambda>t. transaction_id t = k) (rev ts)"

text \<open>
  The tag a compiled rule list gives a row (that of the first rule that matches
  its haystack), and what a run of the rules makes of a row: an untagged row with
  a match gets the tag, every other row stays as it is.
\<close>

definition first_match :: "((string \<Rightarrow> bool) \<times> string) list \<Rightarrow> Transaction \<Rightarrow> string option" where
  "first_match compiled txn = map_option snd (find (\<lambda>rule. fst rule (haystack txn)) compiled)"

definition retag :: "((string \<Rightarrow> bool) \<times> string) list \<Rightarrow> Transaction \<Rightarrow> Transaction" where
  "retag compiled x =
    (if tag x = None
     then (case first_match compiled x of None \<Rightarrow> x | Some g \<Rightarrow> x\<lparr>tag := Some g\<rparr>)
     else x)"

text \<open>What a row becomes when the loop runs over the snapshot \<open>L\<close>.\<close>

definition retag_by ::
  "((string \<Rightarrow> bool) \<times> string) list \<Rightarrow> Transaction list \<Rightarrow> Transaction \<Rightarrow> Transaction" where
  "retag_by C L x =
    (case find (\<lambda>r. transaction_id r = transaction_id x) L of
       None \<Rightarrow> x
     | Some r \<Rightarrow> (case first_match C r of None \<Rightarrow> x | Some g \<Rightarrow> x\<lparr>tag := Some g\<rparr>))"

text \<open>
  The pages of one pass. \<open>pass_pages\<close>: the feed answers the requests of the pass
  with the pages \<open>ps\<close>, one after the other from the cursor \<open>cur\<close>, each page but
  the last with \<open>has_more\<close>. \<open>pass_fails\<close>: it answers with the pages \<open>ps\<close>,
  every one with \<open>has_more\<close>, and then fails the next request with \<open>msg\<close>.
\<close>

fun pass_pages :: "PlaidClient \<Rightarrow> string \<Rightarrow> string \<Rightarrow> SyncPage list \<Rightarrow> bool" where
  "pass_pages plaid accessToken cur [] = False"
| "pass_pages plaid accessToken cur (p # ps) =
     (plaid accessToken (cursor_arg cur) = Inr p
      \<and> (if has_more p then pass_pages plaid accessToken (next_cursor p) ps else ps = []))"

fun pass_fails :: "PlaidClient \<Rightarrow> string \<Rightarrow> string \<Rightarrow> SyncPage list \<Rightarrow> string \<Rightarrow> bool" where
  "pass_fails plaid accessToken cur [] msg = (plaid accessToken (cursor_arg cur) = Inl msg)"
| "pass_fails plaid accessToken cur (p # ps) msg =
     (plaid accessToken (cursor_arg cur) = Inr p \<and> has_more p
      \<and> pass_fails plaid accessToken (next_cursor p) ps msg)"

text \<open>What the pages of a pass accumulate, and the response of the pass.\<close>

definition batch_of :: "SyncPage list \<Rightarrow> Batch" where
  "batch_of ps =
    \<lparr>allAdded = concat (map added ps),
     allModified = concat (map modified ps),
     allRemoved = concat (map removed_ids ps)\<rparr>"

definition sync_response :: "SyncPage list \<Rightarrow> SyncResponse" where
  "sync_response ps =
    \<lparr>n_added = length (concat (map added ps)),
     n_modified = length (concat (map modified ps)),
     n_removed = length (concat (map removed_ids ps)),
     res_cursor = next_cursor (last ps),
     res_has_more = False\<rparr>"

section \<open>Example data\<close>

definition txn0 :: Transaction where
  "txn0 =
    \<lparr>transaction_id = ''txn_1'', account_id = ''acc_1'', amount = 42.5,
     iso_currency_code = Some ''USD'', date = ''2024-06-15'', name = ''Coffee Shop'',
     merchant_name = Some ''Starbucks'', pending = 0, category = Some ''FOOD_AND_DRINK'',
     subcategory = Some ''COFFEE'', payment_channel = Some ''in store'',
     transaction_type = Some ''place'', authorized_date = Some ''2024-06-15'', tag = None\<rparr>"

definition mock_txn :: TransactionResponse where
  \<open>mock_txn =
    \<lparr>tr_transaction_id = ''txn_2'', tr_account_id = ''acc_1'', tr_amount = - 5000,
     tr_date = ''2024-06-01'', tr_name = ''Salary "Direct Deposit"'', tr_merchant_name = None,
     tr_pending = False, tr_category = Some ''INCOME'', tr_subcategory = None,
     tr_payment_channel = Some ''online'', tr_tag = None\<rparr>\<close>



text \<open>The rows of \<open>db.test.ts\<close>.\<close>

definition empty_db :: db where
  "empty_db = \<lparr>accounts = [], transactions = [], sync_state = [], tag_rules = [], budgets = []\<rparr>"

definition testAccount :: AccountInput where
  "testAccount =
    \<lparr>a_account_id = ''acc_1'', a_item_id = ''item_1'', a_name = ''Checking'',
     a_official_name = Some ''Premium Checking'', a_type = ''depository'',
     a_subtype = Some ''checking'', a_mask = Some ''1234'', a_current_balance = Some 1000.5,
     a_available_balance = Some 900, a_iso_currency_code = Some ''USD''\<rparr>"

definition testTransaction :: TransactionInput where
  "testTransaction = TransactionInput.truncate txn0"

definition db_one_account :: db where
  "db_one_account = upsertAccounts ''2024-06-15 10:00:00'' [testAccount] empty_db"

definition db_one_txn :: db where
  "db_one_txn =
    db_one_account\<lparr>transactions := [txn0\<lparr>tag := Some ''coffee''\<rparr>]\<rparr>"









text \<open>
  A feed of two pages: the first adds a transaction and brings the account, the
  second modifies the transaction and removes \<open>txn_1\<close>. \<open>feed_breaks\<close> fails
  after the first page, \<open>feed_two_items\<close> fails every request of \<open>token_A\<close>.
\<close>

definition plaid_account :: PlaidAccount where
  "plaid_account =
    \<lparr>pa_account_id = ''acc_1'', pa_name = ''Checking'', pa_official_name = None,
     pa_type = ''depository'', pa_subtype = Some ''checking'', pa_mask = Some ''0000'',
     pa_balances = \<lparr>bal_current = Some 500, bal_available = Some 500,
                    bal_iso_currency_code = Some ''USD''\<rparr>\<rparr>"

definition plaid_txn :: PlaidTransaction where
  "plaid_txn =
    \<lparr>p_transaction_id = ''plaid_txn_1'', p_account_id = ''acc_1'', p_amount = 25,
     p_iso_currency_code = Some ''USD'', p_date = ''2024-06-01'', p_name = ''SQ *STARBUCKS 123'',
     p_merchant_name = Some ''Starbucks'', p_pending = True, p_category = None,
     p_personal_finance_category =
       Some \<lparr>primary = Some ''FOOD_AND_DRINK'', detailed = Some ''COFFEE''\<rparr>,
     p_payment_channel = ''in store'', p_transaction_type = Some ''place'',
     p_authorized_date = Some ''2024-06-01''\<rparr>"

definition page1 :: SyncPage where
  "page1 = \<lparr>added = [plaid_txn], modified = [], removed = [], pg_accounts = [plaid_account],
     has_more = True, next_cursor = ''cursor_after_page1''\<rparr>"

definition page2 :: SyncPage where
  "page2 = \<lparr>added = [], modified = [plaid_txn\<lparr>p_pending := False, p_amount := 26\<rparr>],
     removed = [Some ''txn_1'', None], pg_accounts = [],
     has_more = False, next_cursor = ''cursor_after_page2''\<rparr>"

definition feed_ok :: PlaidClient where
  "feed_ok accessToken cur =
    (if cur = None then Inr page1
     else if cur = Some ''cursor_after_page1'' then Inr page2
     else Inl ''INVALID_CURSOR'')"

definition feed_breaks :: PlaidClient where
  "feed_breaks accessToken cur = (if cur = None then Inr page1 else Inl ''ETIMEDOUT'')"

definition feed_two_items :: PlaidClient where
  "feed_two_items accessToken cur =
    (if accessToken = ''token_A'' then Inl ''ETIMEDOUT'' else feed_ok accessToken cur)"

definition clock0 :: string where
  "clock0 = ''2024-07-01 09:00:00''"

definition synced_account :: Account where
  "synced_account =
    \<lparr>a_account_id = ''acc_1'', a_item_id = ''item_1'', a_name = ''Checking'',
     a_official_name = None, a_type = ''depository'', a_subtype = Some ''checking'',
     a_mask = Some ''0000'', a_current_balance = Some 500, a_available_balance = Some 500,
     a_iso_currency_code = Some ''USD'', updated_at = ''2024-07-01 09:00:00''\<rparr>"

definition db_synced :: db where
  "db_synced =
    \<lparr>accounts = [synced_account],
     transactions =
       [\<lparr>transaction_id = ''plaid_txn_1'', account_id = ''acc_1'', amount = 26,
         iso_currency_code = Some ''USD'', date = ''2024-06-01'', name = ''Starbucks'',
         merchant_name = Some ''Starbucks'', pending = 0, category = Some ''FOOD_AND_DRINK'',
         subcategory = Some ''COFFEE'', payment_channel = Some ''in store'',
         transaction_type = Some ''place'', authorized_date = Some ''2024-06-01'', tag = None\<rparr>],
     sync_state =
       [\<lparr>item_id = ''item_1'', cursor = ''cursor_after_page2'',
         last_synced_at = ''2024-07-01 09:00:00''\<rparr>],
     tag_rules = [],
     budgets = []\<rparr>"

definition synced_response :: SyncResponse where
  "synced_response =
    \<lparr>n_added = 1, n_modified = 1, n_removed = 1, res_cursor = ''cursor_after_page2'',
     res_has_more = False\<rparr>"



section \<open>The display name\<close>

text \<open>
  C7, as amended. \<open>displayName\<close> is \<open>merchant_name || name\<close>: it is the merchant
  name when that is neither null nor the empty string, and the name otherwise.
\<close>

theorem displayName_fallback:
  "(\<forall>m. merchant_name t = Some m \<and> m \<noteq> [] \<longrightarrow> displayName t = m)
   \<and> (merchant_name t = None \<or> merchant_name t = Some [] \<longrightarrow> displayName t = name t)"
  by (auto simp: displayName_def)

theorem displayName_fallback_witness:
  "displayName txn0 = ''Starbucks''
   \<and> displayName (txn0\<lparr>merchant_name := None, name := ''Direct Deposit''\<rparr>) = ''Direct Deposit''"
  using displayName_fallback [of txn0]
    displayName_fallback [of "txn0\<lparr>merchant_name := None, name := ''Direct Deposit''\<rparr>"]
  by (simp add: txn0_def)

text \<open>
  C7 as stated fails on a merchant name that is the empty string: it is not null,
  and the display name is the name.
\<close>

theorem displayName_empty_merchant_counterexample:
  "merchant_name (txn0\<lparr>merchant_name := Some []\<rparr>) \<noteq> None
   \<and> Some (displayName (txn0\<lparr>merchant_name := Some []\<rparr>))
       \<noteq> merchant_name (txn0\<lparr>merchant_name := Some []\<rparr>)"
  by (simp add: txn0_def displayName_def)

section \<open>CSV export\<close>

lemma join_lines:
  "join [CHR 0x0A] (x # xs) @ [CHR 0x0A] = concat (map (\<lambda>l. l @ [CHR 0x0A]) (x # xs))"
  by (induction xs arbitrary: x) auto

lemma exportCsv_lines:
  "exportCsv num ts
    = concat (map (\<lambda>l. l @ [CHR 0x0A]) (join '','' CSV_HEADERS # map (csv_row num) ts))"
  unfolding exportCsv_def Let_def using join_lines by simp

lemma exportCsv_last: "exportCsv num ts \<noteq> [] \<and> last (exportCsv num ts) = CHR 0x0A"
  by (simp add: exportCsv_def Let_def)

lemma escapeCsv_quoted:
  "v \<noteq> Null \<Longrightarrow>
   CHR '','' \<in> set (js_String num v) \<or> CHR 0x22 \<in> set (js_String num v)
     \<or> CHR 0x0A \<in> set (js_String num v) \<Longrightarrow>
   escapeCsv num v
     = [CHR 0x22]
       @ concat (map (\<lambda>c. if c = CHR 0x22 then [CHR 0x22, CHR 0x22] else [c]) (js_String num v))
       @ [CHR 0x22]"
  by (auto simp: escapeCsv_def js_includes_def replace_quotes_def Let_def)

text \<open>
  C8. The output of \<open>exportCsv\<close> is the header line and one line per transaction,
  each ended by a line feed, so it always ends with one and the empty list gives
  the header line alone. A row is its eleven escaped fields joined by commas. A
  null field is the empty string. A field whose text has a comma, a double quote
  or a line feed is put in double quotes with every double quote doubled.
\<close>

theorem exportCsv_format:
  "exportCsv num ts
     = concat (map (\<lambda>l. l @ [CHR 0x0A])
         (''transaction_id,account_id,date,name,merchant_name,amount,category,subcategory,tag,pending,payment_channel''
            # map (csv_row num) ts))
   \<and> csv_row num t
     = join '',''
         [escapeCsv num (Str (tr_transaction_id t)), escapeCsv num (Str (tr_account_id t)),
          escapeCsv num (Str (tr_date t)), escapeCsv num (Str (tr_name t)),
          escapeCsv num (nullable (tr_merchant_name t)), escapeCsv num (Num (tr_amount t)),
          escapeCsv num (nullable (tr_category t)), escapeCsv num (nullable (tr_subcategory t)),
          escapeCsv num (nullable (tr_tag t)), escapeCsv num (Bool (tr_pending t)),
          escapeCsv num (nullable (tr_payment_channel t))]
   \<and> escapeCsv num (nullable None) = []
   \<and> (v \<noteq> Null \<and> (CHR '','' \<in> set (js_String num v) \<or> CHR 0x22 \<in> set (js_String num v)
         \<or> CHR 0x0A \<in> set (js_String num v))
       \<longrightarrow> escapeCsv num v
           = [CHR 0x22]
             @ concat (map (\<lambda>c. if c = CHR 0x22 then [CHR 0x22, CHR 0x22] else [c]) (js_String num v))
             @ [CHR 0x22])
   \<and> exportCsv num ts \<noteq> [] \<and> last (exportCsv num ts) = CHR 0x0A
   \<and> exportCsv num []
     = ''transaction_id,account_id,date,name,merchant_name,amount,category,subcategory,tag,pending,payment_channel''
       @ [CHR 0x0A]"
proof -
  have hdr: "join '','' CSV_HEADERS = ''transaction_id,account_id,date,name,merchant_name,amount,category,subcategory,tag,pending,payment_channel''"
    by (simp add: CSV_HEADERS_def)
  have 1: "exportCsv num ts
     = concat (map (\<lambda>l. l @ [CHR 0x0A])
         (''transaction_id,account_id,date,name,merchant_name,amount,category,subcategory,tag,pending,payment_channel''
            # map (csv_row num) ts))"
    using exportCsv_lines [of num ts] by (simp only: hdr)
  have 2: "csv_row num t
     = join '',''
         [escapeCsv num (Str (tr_transaction_id t)), escapeCsv num (Str (tr_account_id t)),
          escapeCsv num (Str (tr_date t)), escapeCsv num (Str (tr_name t)),
          escapeCsv num (nullable (tr_merchant_name t)), escapeCsv num (Num (tr_amount t)),
          escapeCsv num (nullable (tr_category t)), escapeCsv num (nullable (tr_subcategory t)),
          escapeCsv num (nullable (tr_tag t)), escapeCsv num (Bool (tr_pending t)),
          escapeCsv num (nullable (tr_payment_channel t))]"
    by (simp only: csv_row_def csv_fields_def list.map)
  have 3: "escapeCsv num (nullable None) = []"
    by (simp add: escapeCsv_def)
  have 5: "exportCsv num []
     = ''transaction_id,account_id,date,name,merchant_name,amount,category,subcategory,tag,pending,payment_channel''
       @ [CHR 0x0A]"
    using exportCsv_lines [of num "[]"] by (simp only: hdr) simp
  show ?thesis
    using 1 2 3 5 escapeCsv_quoted [of v num] exportCsv_last [of num ts] by blast
qed

theorem exportCsv_format_witness:
  \<open>Str (tr_name mock_txn) \<noteq> Null
   \<and> CHR 0x22 \<in> set (js_String (\<lambda>x. ''-5000'') (Str (tr_name mock_txn)))
   \<and> escapeCsv (\<lambda>x. ''-5000'') (Str (tr_name mock_txn)) = ''"Salary ""Direct Deposit"""''
   \<and> exportCsv (\<lambda>x. ''-5000'') [mock_txn]
      = ''transaction_id,account_id,date,name,merchant_name,amount,category,subcategory,tag,pending,payment_channel''
        @ [CHR 0x0A]
        @ ''txn_2,acc_1,2024-06-01,"Salary ""Direct Deposit""",,-5000,INCOME,,,false,online''
        @ [CHR 0x0A]\<close>
proof -
  have h: "CHR 0x22 \<in> set (js_String (\<lambda>x. ''-5000'') (Str (tr_name mock_txn)))"
    by (simp add: mock_txn_def)
  have r: "csv_row (\<lambda>x. ''-5000'') mock_txn
      = ''txn_2,acc_1,2024-06-01,'' @ [CHR 0x22] @ ''Salary '' @ [CHR 0x22, CHR 0x22]
        @ ''Direct Deposit'' @ [CHR 0x22, CHR 0x22, CHR 0x22] @ '',,-5000,INCOME,,,false,online''"
    by (simp add: csv_row_def csv_fields_def mock_txn_def escapeCsv_def js_includes_def
        replace_quotes_def)
  show ?thesis
    using h exportCsv_format [of "\<lambda>x. ''-5000''" "[mock_txn]" mock_txn "Str (tr_name mock_txn)"]
    by (simp add: r) (simp add: mock_txn_def)
qed

section \<open>The burn trend\<close>







section \<open>Budget statuses\<close>







section \<open>The full-text query\<close>













section \<open>Upserts\<close>

lemma sql_upsert_length:
  "length (sql_upsert c u n rs) = (if list_ex c rs then length rs else Suc (length rs))"
  by (induction rs) auto

lemma sql_upsert_keys:
  assumes "\<And>r. key (u r) = key r" and "key n = k"
  shows "map key (sql_upsert (\<lambda>r. key r = k) u n rs)
    = (if k \<in> set (map key rs) then map key rs else map key rs @ [k])"
  using assms by (induction rs) auto

lemma sql_upsert_distinct:
  assumes "\<And>r. key (u r) = key r" and "key n = k" and "distinct (map key rs)"
  shows "distinct (map key (sql_upsert (\<lambda>r. key r = k) u n rs))"
  using assms by (simp add: sql_upsert_keys [where key = key])

lemma filter_key_absent: "k \<notin> set (map key rs) \<Longrightarrow> filter (\<lambda>r. key r = k) rs = []"
  by (induction rs) auto

lemma sql_upsert_filter_same:
  assumes "\<And>r. key (u r) = key r" and "key n = k" and "distinct (map key rs)"
  shows "filter (\<lambda>r. key r = k) (sql_upsert (\<lambda>r. key r = k) u n rs)
    = (case find (\<lambda>r. key r = k) rs of None \<Rightarrow> [n] | Some r \<Rightarrow> [u r])"
  using assms by (induction rs) (auto simp: filter_key_absent)

lemma sql_upsert_filter_other:
  assumes "\<And>r. key (u r) = key r" and "key n = k" and "k' \<noteq> k"
  shows "filter (\<lambda>r. key r = k') (sql_upsert (\<lambda>r. key r = k) u n rs)
    = filter (\<lambda>r. key r = k') rs"
  using assms by (induction rs) auto

lemma find_key_distinct:
  "distinct (map key rs) \<Longrightarrow> r \<in> set rs \<Longrightarrow> find (\<lambda>x. key x = key r) rs = Some r"
  by (induction rs) (auto simp: image_iff)

lemma filter_key_distinct:
  "distinct (map key rs) \<Longrightarrow> r \<in> set rs \<Longrightarrow> filter (\<lambda>x. key x = key r) rs = [r]"
  by (induction rs) (auto simp: image_iff filter_key_absent)

lemma find_Some_mem: "find P rs = Some r \<Longrightarrow> r \<in> set rs \<and> P r"
  by (induction rs) (auto split: if_splits)


lemma list_ex_key: "list_ex (\<lambda>r. key r = k) rs \<longleftrightarrow> k \<in> set (map key rs)"
  by (induction rs) auto


lemma tcu_id [simp]: "transaction_id (transaction_conflict_update t r) = transaction_id r"
  by (simp add: transaction_conflict_update_def)

lemma tcu_tag [simp]: "tag (transaction_conflict_update t r) = tag r"
  by (simp add: transaction_conflict_update_def)

lemma tcu_extend:
  "transaction_id r = transaction_id t \<Longrightarrow>
   transaction_conflict_update t r = TransactionInput.extend t (Transaction.fields (tag r))"
  by (cases r, cases t) (simp add: transaction_conflict_update_def TransactionInput.defs Transaction.defs)

lemma extend_id [simp]: "transaction_id (TransactionInput.extend t x) = transaction_id t"
  by (cases t) (simp add: TransactionInput.defs)

lemma extend_tag [simp]: "tag (TransactionInput.extend t (Transaction.fields g)) = g"
  by (cases t) (simp add: TransactionInput.defs Transaction.defs)

lemma truncate_extend [simp]:
  "TransactionInput.truncate (TransactionInput.extend t (Transaction.fields g)) = t"
  by (cases t) (simp add: TransactionInput.defs Transaction.defs)

lemma upsert_transaction_Inr:
  "upsert_transaction t d = Inr d' \<Longrightarrow>
   account_id t \<in> set (map a_account_id (accounts d)) \<and>
   d' = d\<lparr>transactions :=
       sql_upsert (\<lambda>r. transaction_id r = transaction_id t) (transaction_conflict_update t)
         (TransactionInput.extend t (Transaction.fields None)) (transactions d)\<rparr>"
  by (auto simp: upsert_transaction_def split: if_splits)

lemma upsert_transaction_distinct:
  "upsert_transaction t d = Inr d' \<Longrightarrow> distinct (map transaction_id (transactions d)) \<Longrightarrow>
   distinct (map transaction_id (transactions d'))"
  by (drule upsert_transaction_Inr) (simp add: sql_upsert_distinct [where key = transaction_id])

lemma upsert_transaction_frame:
  "upsert_transaction t d = Inr d' \<Longrightarrow>
   accounts d' = accounts d \<and> sync_state d' = sync_state d \<and> tag_rules d' = tag_rules d
   \<and> budgets d' = budgets d"
  by (drule upsert_transaction_Inr) simp

text \<open>The row of a key after one statement.\<close>

lemma upsert_transaction_row:
  assumes u: "upsert_transaction t d = Inr d'"
    and dist: "distinct (map transaction_id (transactions d))"
    and r: "r \<in> set (transactions d)"
  shows "filter (\<lambda>x. transaction_id x = transaction_id r) (transactions d')
    = [if transaction_id r = transaction_id t
       then TransactionInput.extend t (Transaction.fields (tag r)) else r]"
proof (cases "transaction_id r = transaction_id t")
  case True
  have f: "find (\<lambda>x. transaction_id x = transaction_id t) (transactions d) = Some r"
    using find_key_distinct [OF dist r] True by simp
  show ?thesis
    using upsert_transaction_Inr [OF u] True f
      sql_upsert_filter_same [where key = transaction_id and k = "transaction_id t"
        and u = "transaction_conflict_update t"
        and n = "TransactionInput.extend t (Transaction.fields None)"
        and rs = "transactions d", OF _ _ dist]
    by (simp add: tcu_extend)
next
  case False
  show ?thesis
    using upsert_transaction_Inr [OF u] False filter_key_distinct [OF dist r]
      sql_upsert_filter_other [where key = transaction_id and k = "transaction_id t"
        and k' = "transaction_id r" and u = "transaction_conflict_update t"
        and n = "TransactionInput.extend t (Transaction.fields None)"
        and rs = "transactions d"]
    by simp
qed

lemma filter_singleton_mem: "filter P xs = [x] \<Longrightarrow> x \<in> set xs \<and> P x"
proof -
  assume "filter P xs = [x]"
  then have "x \<in> set (filter P xs)" by simp
  then show ?thesis by simp
qed

lemma upsertTransactions_distinct:
  "upsertTransactions ts d = Inr d' \<Longrightarrow> distinct (map transaction_id (transactions d)) \<Longrightarrow>
   distinct (map transaction_id (transactions d'))"
  unfolding upsertTransactions_def
proof (induction ts arbitrary: d)
  case Nil
  then show ?case by simp
next
  case (Cons t ts)
  then show ?case
    by (auto split: sum.splits dest: upsert_transaction_distinct)
qed

lemma upsertTransactions_frame:
  "upsertTransactions ts d = Inr d' \<Longrightarrow>
   accounts d' = accounts d \<and> sync_state d' = sync_state d \<and> tag_rules d' = tag_rules d
   \<and> budgets d' = budgets d"
  unfolding upsertTransactions_def
proof (induction ts arbitrary: d)
  case Nil
  then show ?case by simp
next
  case (Cons t ts)
  then show ?case
    by (auto split: sum.splits dest!: upsert_transaction_frame)
qed

lemma find_append_option:
  "find P (xs @ ys) = (case find P xs of Some x \<Rightarrow> Some x | None \<Rightarrow> find P ys)"
  by (induction xs) auto

lemma last_with_id_Cons:
  "last_with_id k (t # ts)
    = (case last_with_id k ts of Some x \<Rightarrow> Some x
       | None \<Rightarrow> if transaction_id t = k then Some t else None)"
  by (simp add: last_with_id_def find_append_option split: option.splits)

lemma upsertTransactions_row:
  assumes "upsertTransactions ts d = Inr d'"
    and "distinct (map transaction_id (transactions d))"
    and "r \<in> set (transactions d)"
  shows "\<exists>r'. filter (\<lambda>x. transaction_id x = transaction_id r) (transactions d') = [r']
     \<and> tag r' = tag r
     \<and> (case last_with_id (transaction_id r) ts of
          None \<Rightarrow> r' = r
        | Some t \<Rightarrow> TransactionInput.truncate r' = t)"
  using assms unfolding upsertTransactions_def
proof (induction ts arbitrary: d r)
  case Nil
  then show ?case by (simp add: last_with_id_def filter_key_distinct)
next
  case (Cons t ts)
  from Cons.prems(1) obtain d1 where u: "upsert_transaction t d = Inr d1"
    and rest: "run_all upsert_transaction ts d1 = Inr d'"
    by (auto split: sum.splits)
  let ?r1 = "if transaction_id r = transaction_id t
       then TransactionInput.extend t (Transaction.fields (tag r)) else r"
  have row: "filter (\<lambda>x. transaction_id x = transaction_id r) (transactions d1) = [?r1]"
    using upsert_transaction_row [OF u Cons.prems(2) Cons.prems(3)] .
  have mem: "?r1 \<in> set (transactions d1)"
    using filter_singleton_mem [OF row] by simp
  have id1: "transaction_id ?r1 = transaction_id r" by simp
  have tag1: "tag ?r1 = tag r" by simp
  have dist1: "distinct (map transaction_id (transactions d1))"
    using upsert_transaction_distinct [OF u Cons.prems(2)] .
  from Cons.IH [OF rest dist1 mem] obtain r' where
    f: "filter (\<lambda>x. transaction_id x = transaction_id ?r1) (transactions d') = [r']"
    and tg: "tag r' = tag ?r1"
    and c: "(case last_with_id (transaction_id ?r1) ts of None \<Rightarrow> r' = ?r1
        | Some t \<Rightarrow> TransactionInput.truncate r' = t)"
    by blast
  have "(case last_with_id (transaction_id r) (t # ts) of None \<Rightarrow> r' = r
        | Some t \<Rightarrow> TransactionInput.truncate r' = t)"
    using c unfolding id1 last_with_id_Cons
    by (cases "last_with_id (transaction_id r) ts") (auto split: if_splits)
  then show ?case using f tg unfolding id1 tag1 by blast
qed

lemma acu_id [simp]: "a_account_id (account_conflict_update now a r) = a_account_id r"
  by (simp add: account_conflict_update_def)

lemma acu_extend:
  "a_account_id r = a_account_id a \<Longrightarrow>
   account_conflict_update now a r
     = AccountInput.extend (a\<lparr>a_item_id := a_item_id r\<rparr>) (Account.fields now)"
  by (cases r, cases a) (simp add: account_conflict_update_def AccountInput.defs Account.defs)

lemma aextend_id [simp]: "a_account_id (AccountInput.extend a x) = a_account_id a"
  by (cases a) (simp add: AccountInput.defs)

lemma upsertAccounts_single: "upsertAccounts now [a] d = upsert_account now a d"
  by (simp add: upsertAccounts_def)

lemma upsert_account_distinct:
  "distinct (map a_account_id (accounts d)) \<Longrightarrow>
   distinct (map a_account_id (accounts (upsert_account now a d)))"
  by (simp add: upsert_account_def sql_upsert_distinct [where key = a_account_id])

lemma upsert_account_present:
  "a_account_id a \<in> set (map a_account_id (accounts (upsert_account now a d)))"
  by (simp add: upsert_account_def sql_upsert_keys [where key = a_account_id])

lemma upsert_account_frame:
  "transactions (upsert_account now a d) = transactions d
   \<and> sync_state (upsert_account now a d) = sync_state d
   \<and> tag_rules (upsert_account now a d) = tag_rules d
   \<and> budgets (upsert_account now a d) = budgets d"
  by (simp add: upsert_account_def)

lemma key_present_row:
  "distinct (map key rs) \<Longrightarrow> k \<in> set (map key rs) \<Longrightarrow>
   \<exists>r. find (\<lambda>x. key x = k) rs = Some r \<and> filter (\<lambda>x. key x = k) rs = [r] \<and> key r = k"
  using find_key_distinct [of key rs] filter_key_distinct [of key rs] by fastforce

lemma upsert_account_twice:
  assumes dist: "distinct (map a_account_id (accounts d))"
    and same: "a_account_id a2 = a_account_id a1"
  shows "\<exists>r1. filter (\<lambda>r. a_account_id r = a_account_id a1)
            (accounts (upsertAccounts now1 [a1] d)) = [r1]
      \<and> filter (\<lambda>r. a_account_id r = a_account_id a1)
            (accounts (upsertAccounts now2 [a2] (upsertAccounts now1 [a1] d)))
          = [AccountInput.extend (a2\<lparr>a_item_id := a_item_id r1\<rparr>) (Account.fields now2)]
      \<and> length (accounts (upsertAccounts now2 [a2] (upsertAccounts now1 [a1] d)))
          = length (accounts (upsertAccounts now1 [a1] d))"
proof -
  let ?d1 = "upsert_account now1 a1 d"
  have d1: "distinct (map a_account_id (accounts ?d1))"
    using dist by (rule upsert_account_distinct)
  have p1: "a_account_id a1 \<in> set (map a_account_id (accounts ?d1))"
    by (rule upsert_account_present)
  from key_present_row [OF d1 p1] obtain r1 where
    f1: "find (\<lambda>x. a_account_id x = a_account_id a1) (accounts ?d1) = Some r1"
    and g1: "filter (\<lambda>x. a_account_id x = a_account_id a1) (accounts ?d1) = [r1]"
    and k1: "a_account_id r1 = a_account_id a1"
    by blast
  have "filter (\<lambda>r. a_account_id r = a_account_id a2) (accounts (upsert_account now2 a2 ?d1))
      = [account_conflict_update now2 a2 r1]"
    using sql_upsert_filter_same [where key = a_account_id and k = "a_account_id a2"
        and u = "account_conflict_update now2 a2"
        and n = "AccountInput.extend a2 (Account.fields now2)"
        and rs = "accounts ?d1", OF _ _ d1] f1 same
    by (simp add: upsert_account_def)
  then have g2: "filter (\<lambda>r. a_account_id r = a_account_id a1)
      (accounts (upsert_account now2 a2 ?d1))
      = [AccountInput.extend (a2\<lparr>a_item_id := a_item_id r1\<rparr>) (Account.fields now2)]"
    using same k1 by (simp add: acu_extend)
  have len: "length (accounts (upsert_account now2 a2 ?d1)) = length (accounts ?d1)"
    using p1 same by (simp add: upsert_account_def sql_upsert_length list_ex_key [where key = a_account_id])
  show ?thesis
    unfolding upsertAccounts_single using g1 g2 len by blast
qed

lemma upsertTransactions_single: "upsertTransactions [t] d = upsert_transaction t d"
  by (simp add: upsertTransactions_def split: sum.splits)

lemma upsert_transaction_present:
  "upsert_transaction t d = Inr d' \<Longrightarrow>
   transaction_id t \<in> set (map transaction_id (transactions d'))"
  by (drule upsert_transaction_Inr) (simp add: sql_upsert_keys [where key = transaction_id])

lemma upsert_transaction_twice:
  assumes dist: "distinct (map transaction_id (transactions d))"
    and same: "transaction_id t2 = transaction_id t1"
    and u1: "upsertTransactions [t1] d = Inr d1"
    and u2: "upsertTransactions [t2] d1 = Inr d2"
  shows "\<exists>r1. filter (\<lambda>r. transaction_id r = transaction_id t1) (transactions d1) = [r1]
      \<and> filter (\<lambda>r. transaction_id r = transaction_id t1) (transactions d2)
          = [TransactionInput.extend t2 (Transaction.fields (tag r1))]
      \<and> length (transactions d2) = length (transactions d1)"
proof -
  have s1: "upsert_transaction t1 d = Inr d1" using u1 by (simp add: upsertTransactions_single)
  have s2: "upsert_transaction t2 d1 = Inr d2" using u2 by (simp add: upsertTransactions_single)
  have d1: "distinct (map transaction_id (transactions d1))"
    using upsert_transaction_distinct [OF s1 dist] .
  have p1: "transaction_id t1 \<in> set (map transaction_id (transactions d1))"
    using upsert_transaction_present [OF s1] .
  from key_present_row [OF d1 p1] obtain r1 where
    g1: "filter (\<lambda>x. transaction_id x = transaction_id t1) (transactions d1) = [r1]"
    and k1: "transaction_id r1 = transaction_id t1"
    by blast
  have m1: "r1 \<in> set (transactions d1)" using filter_singleton_mem [OF g1] by simp
  have g2: "filter (\<lambda>r. transaction_id r = transaction_id t1) (transactions d2)
          = [TransactionInput.extend t2 (Transaction.fields (tag r1))]"
    using upsert_transaction_row [OF s2 d1 m1] k1 same by simp
  have len: "length (transactions d2) = length (transactions d1)"
    using upsert_transaction_Inr [OF s2] p1 same
    by (simp add: sql_upsert_length list_ex_key [where key = transaction_id])
  show ?thesis using g1 g2 len by blast
qed

text \<open>
  C4, as amended. Upserting a key a second time leaves exactly one row for the
  key and the table as long as it was. An account's row then has the columns of
  the second argument, except \<open>item_id\<close>, which keeps the value the row had, and
  \<open>updated_at\<close>, the time of the second upsert. A transaction's row has the
  thirteen columns of the second argument and the tag the row had.
\<close>

theorem upsert_twice:
  "(distinct (map a_account_id (accounts d)) \<and> a_account_id a2 = a_account_id a1
     \<longrightarrow> (\<exists>r1. filter (\<lambda>r. a_account_id r = a_account_id a1)
                  (accounts (upsertAccounts now1 [a1] d)) = [r1]
            \<and> filter (\<lambda>r. a_account_id r = a_account_id a1)
                  (accounts (upsertAccounts now2 [a2] (upsertAccounts now1 [a1] d)))
                = [AccountInput.extend (a2\<lparr>a_item_id := a_item_id r1\<rparr>) (Account.fields now2)]
            \<and> length (accounts (upsertAccounts now2 [a2] (upsertAccounts now1 [a1] d)))
                = length (accounts (upsertAccounts now1 [a1] d))))
   \<and> (distinct (map transaction_id (transactions d)) \<and> transaction_id t2 = transaction_id t1
       \<and> upsertTransactions [t1] d = Inr d1 \<and> upsertTransactions [t2] d1 = Inr d2
     \<longrightarrow> (\<exists>r1. filter (\<lambda>r. transaction_id r = transaction_id t1) (transactions d1) = [r1]
            \<and> filter (\<lambda>r. transaction_id r = transaction_id t1) (transactions d2)
                = [TransactionInput.extend t2 (Transaction.fields (tag r1))]
            \<and> length (transactions d2) = length (transactions d1)))"
  using upsert_account_twice [of d a2 a1 now1 now2] upsert_transaction_twice [of d t2 t1 d1 d2]
  by blast

lemmas ex_defs = upsertTransactions_def upsert_transaction_def db_one_txn_def db_one_account_def
    upsertAccounts_def upsert_account_def empty_db_def testAccount_def testTransaction_def txn0_def
    transaction_conflict_update_def account_conflict_update_def
    TransactionInput.defs AccountInput.defs Account.defs Transaction.defs

theorem upsert_twice_witness:
  "distinct (map a_account_id (accounts empty_db))
   \<and> a_account_id (testAccount\<lparr>a_current_balance := Some 2000\<rparr>) = a_account_id testAccount
   \<and> accounts (upsertAccounts ''2024-07-01 09:00:00'' [testAccount\<lparr>a_current_balance := Some 2000\<rparr>]
        (upsertAccounts ''2024-06-15 10:00:00'' [testAccount] empty_db))
      = [AccountInput.extend (testAccount\<lparr>a_current_balance := Some 2000\<rparr>)
           (Account.fields ''2024-07-01 09:00:00'')]
   \<and> distinct (map transaction_id (transactions db_one_account))
   \<and> upsertTransactions [testTransaction] db_one_account
      = Inr (db_one_account\<lparr>transactions := [txn0]\<rparr>)
   \<and> upsertTransactions [testTransaction\<lparr>amount := 99.99\<rparr>]
        (db_one_account\<lparr>transactions := [txn0]\<rparr>)
      = Inr (db_one_account\<lparr>transactions := [txn0\<lparr>amount := 99.99\<rparr>]\<rparr>)"
proof -
  have a: "distinct (map a_account_id (accounts empty_db))
     \<and> a_account_id (testAccount\<lparr>a_current_balance := Some 2000\<rparr>) = a_account_id testAccount"
    by (simp add: empty_db_def)
  have t: "distinct (map transaction_id (transactions db_one_account))
     \<and> transaction_id (testTransaction\<lparr>amount := 99.99\<rparr>) = transaction_id testTransaction"
    by (simp add: ex_defs)
  have u1: "upsertTransactions [testTransaction] db_one_account
      = Inr (db_one_account\<lparr>transactions := [txn0]\<rparr>)"
    by (simp add: ex_defs)
  have u2: "upsertTransactions [testTransaction\<lparr>amount := 99.99\<rparr>]
        (db_one_account\<lparr>transactions := [txn0]\<rparr>)
      = Inr (db_one_account\<lparr>transactions := [txn0\<lparr>amount := 99.99\<rparr>]\<rparr>)"
    by (simp add: ex_defs)
  have acc: "accounts (upsertAccounts ''2024-07-01 09:00:00'' [testAccount\<lparr>a_current_balance := Some 2000\<rparr>]
        (upsertAccounts ''2024-06-15 10:00:00'' [testAccount] empty_db))
      = [AccountInput.extend (testAccount\<lparr>a_current_balance := Some 2000\<rparr>)
           (Account.fields ''2024-07-01 09:00:00'')]"
    by (simp add: ex_defs)
  show ?thesis
    using a t u1 u2 acc
      upsert_twice [where d = empty_db and ?a1.0 = testAccount
        and ?a2.0 = "testAccount\<lparr>a_current_balance := Some 2000\<rparr>"
        and ?now1.0 = "''2024-06-15 10:00:00''" and ?now2.0 = "''2024-07-01 09:00:00''"]
      upsert_twice [where d = db_one_account and ?t1.0 = testTransaction
        and ?t2.0 = "testTransaction\<lparr>amount := 99.99\<rparr>"
        and ?d1.0 = "db_one_account\<lparr>transactions := [txn0]\<rparr>"
        and ?d2.0 = "db_one_account\<lparr>transactions := [txn0\<lparr>amount := 99.99\<rparr>]\<rparr>"]
    by blast
qed

text \<open>
  C4 as stated fails on \<open>item_id\<close>: the second upsert of account \<open>acc_1\<close>
  supplies \<open>item_2\<close>, and the row keeps \<open>item_1\<close>.
\<close>

theorem upsert_twice_item_id_counterexample:
  "a_account_id (testAccount\<lparr>a_item_id := ''item_2''\<rparr>) = a_account_id testAccount
   \<and> map a_item_id
        (accounts (upsertAccounts ''2024-07-01 09:00:00'' [testAccount\<lparr>a_item_id := ''item_2''\<rparr>]
           (upsertAccounts ''2024-06-15 10:00:00'' [testAccount] empty_db)))
      = [''item_1'']
   \<and> a_item_id (testAccount\<lparr>a_item_id := ''item_2''\<rparr>) \<noteq> ''item_1''"
  by (simp add: ex_defs)

section \<open>Upserts keep the tag\<close>

lemma run_all_append:
  "run_all f (xs @ ys) s = (case run_all f xs s of Inl e \<Rightarrow> Inl e | Inr s' \<Rightarrow> run_all f ys s')"
  by (induction xs arbitrary: s) (auto split: sum.splits)

lemma upsertTransactions_append:
  "upsertTransactions (xs @ ys) d
    = (case upsertTransactions xs d of Inl e \<Rightarrow> Inl e | Inr d1 \<Rightarrow> upsertTransactions ys d1)"
  unfolding upsertTransactions_def by (rule run_all_append)

lemma upsertTransactions_Nil: "upsertTransactions [] d = Inr d"
  by (simp add: upsertTransactions_def)

lemma fold_delete_transactions:
  "transactions (fold delete_transaction ids d)
    = filter (\<lambda>r. transaction_id r \<notin> set ids) (transactions d)"
  by (induction ids arbitrary: d) (auto simp: delete_transaction_def intro: filter_cong)

lemma fold_delete_frame:
  "accounts (fold delete_transaction ids d) = accounts d
   \<and> sync_state (fold delete_transaction ids d) = sync_state d
   \<and> tag_rules (fold delete_transaction ids d) = tag_rules d
   \<and> budgets (fold delete_transaction ids d) = budgets d"
  by (induction ids arbitrary: d) (auto simp: delete_transaction_def)

lemma removeTransactions_eq:
  "removeTransactions ids d
    = d\<lparr>transactions := filter (\<lambda>r. transaction_id r \<notin> set ids) (transactions d)\<rparr>"
proof (cases "ids = []")
  case True
  then show ?thesis by (simp add: removeTransactions_def)
next
  case False
  have "fold delete_transaction ids d
      = d\<lparr>transactions := filter (\<lambda>r. transaction_id r \<notin> set ids) (transactions d)\<rparr>"
    using fold_delete_transactions [of ids d] fold_delete_frame [of ids d]
    by (intro db.equality) simp_all
  then show ?thesis using False by (simp add: removeTransactions_def)
qed

text \<open>The closing transaction is the upsert of added then modified, the removals, the cursor.\<close>

lemma commit_batch_eq:
  "commit_batch now itemId b cur d
    = (case upsertTransactions (map mapPlaidTransaction (allAdded b @ allModified b)) d of
         Inl e \<Rightarrow> Inl e
       | Inr d2 \<Rightarrow> Inr (setSyncState now itemId cur (removeTransactions (allRemoved b) d2)))"
proof -
  have a: "(if allAdded b \<noteq> [] then upsertTransactions (map mapPlaidTransaction (allAdded b)) d
            else Inr d) = upsertTransactions (map mapPlaidTransaction (allAdded b)) d"
    by (simp add: upsertTransactions_Nil)
  have m: "\<And>d1. (if allModified b \<noteq> []
               then upsertTransactions (map mapPlaidTransaction (allModified b)) d1
               else Inr d1) = upsertTransactions (map mapPlaidTransaction (allModified b)) d1"
    by (simp add: upsertTransactions_Nil)
  have r: "\<And>d2. (if allRemoved b \<noteq> [] then removeTransactions (allRemoved b) d2 else d2)
      = removeTransactions (allRemoved b) d2"
    by (simp add: removeTransactions_def)
  show ?thesis
    unfolding commit_batch_def a m r
    by (simp add: upsertTransactions_append split: sum.splits)
qed

lemma filter_filter_key:
  "filter (\<lambda>x. key x \<notin> S \<and> key x = k) rs
    = (if k \<in> S then [] else filter (\<lambda>x. key x = k) rs)"
  by (induction rs) auto

lemma commit_batch_row:
  assumes c: "commit_batch now itemId b cur d = Inr d'"
    and dist: "distinct (map transaction_id (transactions d))"
    and r: "r \<in> set (transactions d)"
    and keep: "transaction_id r \<notin> set (allRemoved b)"
  shows "\<exists>r'. filter (\<lambda>x. transaction_id x = transaction_id r) (transactions d') = [r']
     \<and> tag r' = tag r
     \<and> (case last_with_id (transaction_id r)
               (map mapPlaidTransaction (allAdded b @ allModified b)) of
          None \<Rightarrow> r' = r
        | Some t \<Rightarrow> TransactionInput.truncate r' = t)"
proof -
  from c obtain d2 where
    u: "upsertTransactions (map mapPlaidTransaction (allAdded b @ allModified b)) d = Inr d2"
    and d': "d' = setSyncState now itemId cur (removeTransactions (allRemoved b) d2)"
    unfolding commit_batch_eq by (auto split: sum.splits)
  have t': "transactions d'
      = filter (\<lambda>r. transaction_id r \<notin> set (allRemoved b)) (transactions d2)"
    unfolding d' by (simp add: setSyncState_def removeTransactions_eq)
  from upsertTransactions_row [OF u dist r] obtain r' where
    f: "filter (\<lambda>x. transaction_id x = transaction_id r) (transactions d2) = [r']"
    and rest: "tag r' = tag r"
      "(case last_with_id (transaction_id r)
               (map mapPlaidTransaction (allAdded b @ allModified b)) of
          None \<Rightarrow> r' = r
        | Some t \<Rightarrow> TransactionInput.truncate r' = t)"
    by blast
  have "filter (\<lambda>x. transaction_id x = transaction_id r) (transactions d') = [r']"
    unfolding t' using keep f by (simp add: filter_filter_key)
  then show ?thesis using rest by blast
qed

text \<open>
  C9. A row that is stored keeps its tag through \<open>upsertTransactions\<close>, whatever
  the batch: after it there is exactly one row with the row's id, with the same
  tag; when the batch has the id, the thirteen upstream columns of the row are
  those of the last argument with the id, and otherwise the row is unchanged. The
  same holds through the closing transaction of \<open>syncItem\<close> for a row whose id
  is not among the removed ids.
\<close>

theorem upsert_keeps_tag:
  assumes "distinct (map transaction_id (transactions d))" and "r \<in> set (transactions d)"
  shows "(upsertTransactions ts d = Inr d' \<longrightarrow>
          (\<exists>r'. filter (\<lambda>x. transaction_id x = transaction_id r) (transactions d') = [r']
             \<and> tag r' = tag r
             \<and> (case last_with_id (transaction_id r) ts of
                  None \<Rightarrow> r' = r
                | Some t \<Rightarrow> TransactionInput.truncate r' = t)))
      \<and> (commit_batch now itemId b cur d = Inr d'' \<and> transaction_id r \<notin> set (allRemoved b) \<longrightarrow>
          (\<exists>r'. filter (\<lambda>x. transaction_id x = transaction_id r) (transactions d'') = [r']
             \<and> tag r' = tag r
             \<and> (case last_with_id (transaction_id r)
                       (map mapPlaidTransaction (allAdded b @ allModified b)) of
                  None \<Rightarrow> r' = r
                | Some t \<Rightarrow> TransactionInput.truncate r' = t)))"
  using upsertTransactions_row [OF _ assms, of ts d']
    commit_batch_row [OF _ assms, of now itemId b cur d'']
  by blast

theorem upsert_keeps_tag_witness:
  "distinct (map transaction_id (transactions db_one_txn))
   \<and> txn0\<lparr>tag := Some ''coffee''\<rparr> \<in> set (transactions db_one_txn)
   \<and> upsertTransactions [testTransaction\<lparr>amount := 99.99\<rparr>] db_one_txn
      = Inr (db_one_txn\<lparr>transactions := [txn0\<lparr>amount := 99.99, tag := Some ''coffee''\<rparr>]\<rparr>)
   \<and> tag (txn0\<lparr>amount := 99.99, tag := Some ''coffee''\<rparr>) = Some ''coffee''"
proof -
  have h: "distinct (map transaction_id (transactions db_one_txn))"
    "txn0\<lparr>tag := Some ''coffee''\<rparr> \<in> set (transactions db_one_txn)"
    by (simp_all add: db_one_txn_def)
  have u: "upsertTransactions [testTransaction\<lparr>amount := 99.99\<rparr>] db_one_txn
      = Inr (db_one_txn\<lparr>transactions := [txn0\<lparr>amount := 99.99, tag := Some ''coffee''\<rparr>]\<rparr>)"
    by (simp add: ex_defs)
  show ?thesis
    using h u upsert_keeps_tag [OF h, of "[testTransaction\<lparr>amount := 99.99\<rparr>]"
        "db_one_txn\<lparr>transactions := [txn0\<lparr>amount := 99.99, tag := Some ''coffee''\<rparr>]\<rparr>"]
    by simp
qed

section \<open>Tag rules\<close>

lemma haystack_tag [simp]: "haystack (x\<lparr>tag := g\<rparr>) = haystack x"
  by (simp add: haystack_def)

lemma first_match_tag [simp]: "first_match C (x\<lparr>tag := g\<rparr>) = first_match C x"
  by (simp add: first_match_def)

lemma retag_id [simp]: "transaction_id (retag C x) = transaction_id x"
  by (simp add: retag_def split: option.splits)



lemma retag_fixed: "tag (retag C x) = None \<Longrightarrow> retag C x = x"
  by (auto simp: retag_def split: option.splits if_splits)

lemma retag_first_match [simp]: "first_match C (retag C' x) = first_match C x"
  by (simp add: retag_def split: option.splits)


lemma retag_Nil [simp]: "retag [] x = x"
  by (simp add: retag_def first_match_def)



lemma retag_by_id [simp]: "transaction_id (retag_by C L x) = transaction_id x"
  by (simp add: retag_by_def split: option.splits)



















section \<open>One pass of reconciliation\<close>

lemma sync_loop_unfold:
  "sync_loop plaid now accessToken itemId cur b d =
    (case plaid accessToken (cursor_arg cur) of
       Inl msg \<Rightarrow> Some (Inl msg, d)
     | Inr data \<Rightarrow>
         if has_more data
         then sync_loop plaid now accessToken itemId (next_cursor data) (accumulate data b)
                (upsert_page_accounts now itemId data d)
         else Some (Inr (accumulate data b, next_cursor data),
                upsert_page_accounts now itemId data d))"
  by (rule sync_loop.simps)

lemma fold_accumulate:
  "fold accumulate ps b =
    \<lparr>allAdded = allAdded b @ concat (map added ps),
     allModified = allModified b @ concat (map modified ps),
     allRemoved = allRemoved b @ concat (map removed_ids ps)\<rparr>"
  by (induction ps arbitrary: b) (simp_all add: accumulate_def)

lemma fold_accumulate_empty: "fold accumulate ps empty_batch = batch_of ps"
  by (simp add: fold_accumulate batch_of_def empty_batch_def)

lemma sync_loop_pass:
  "pass_pages plaid accessToken cur ps \<Longrightarrow>
   sync_loop plaid now accessToken itemId cur b d
    = Some (Inr (fold accumulate ps b, next_cursor (last ps)),
        fold (upsert_page_accounts now itemId) ps d)"
proof (induction ps arbitrary: cur b d)
  case Nil
  then show ?case by simp
next
  case (Cons p ps)
  show ?case
  proof (cases "has_more p")
    case True
    then have "pass_pages plaid accessToken (next_cursor p) ps" using Cons.prems by simp
    then have "ps \<noteq> []" by (cases ps) auto
    then show ?thesis
      using Cons.prems True Cons.IH [OF \<open>pass_pages plaid accessToken (next_cursor p) ps\<close>]
      by (subst sync_loop_unfold) simp
  next
    case False
    then show ?thesis using Cons.prems by (subst sync_loop_unfold) simp
  qed
qed

lemma sync_loop_fails:
  "pass_fails plaid accessToken cur ps msg \<Longrightarrow>
   sync_loop plaid now accessToken itemId cur b d
    = Some (Inl msg, fold (upsert_page_accounts now itemId) ps d)"
proof (induction ps arbitrary: cur b d)
  case Nil
  then show ?case by (subst sync_loop_unfold) simp
next
  case (Cons p ps)
  then show ?case by (subst sync_loop_unfold) simp
qed

lemma sync_loop_complete:
  "sync_loop plaid now accessToken itemId cur b d = Some y \<Longrightarrow>
   (\<exists>ps. pass_pages plaid accessToken cur ps)
   \<or> (\<exists>ps msg. pass_fails plaid accessToken cur ps msg)"
proof (induction rule: sync_loop.raw_induct [rotated 1, consumes 1, case_names step])
  case (step f plaid now accessToken itemId cur b d y)
  show ?case
  proof (cases "plaid accessToken (cursor_arg cur)")
    case (Inl msg)
    then have "pass_fails plaid accessToken cur [] msg" by simp
    then show ?thesis by blast
  next
    case (Inr data)
    show ?thesis
    proof (cases "has_more data")
      case True
      then have "f plaid now accessToken itemId (next_cursor data) (accumulate data b)
                (upsert_page_accounts now itemId data d) = Some y"
        using step(2) Inr by simp
      from step(1) [OF this] show ?thesis
      proof
        assume "\<exists>ps. pass_pages plaid accessToken (next_cursor data) ps"
        then obtain ps where "pass_pages plaid accessToken (next_cursor data) ps" by blast
        then have "pass_pages plaid accessToken cur (data # ps)" using Inr True by simp
        then show ?thesis by blast
      next
        assume "\<exists>ps msg. pass_fails plaid accessToken (next_cursor data) ps msg"
        then obtain ps msg where "pass_fails plaid accessToken (next_cursor data) ps msg" by blast
        then have "pass_fails plaid accessToken cur (data # ps) msg" using Inr True by simp
        then show ?thesis by blast
      qed
    next
      case False
      then have "pass_pages plaid accessToken cur [data]" using Inr by simp
      then show ?thesis by blast
    qed
  qed
qed

lemma upsertAccounts_frame:
  "transactions (upsertAccounts now as d) = transactions d
   \<and> sync_state (upsertAccounts now as d) = sync_state d
   \<and> tag_rules (upsertAccounts now as d) = tag_rules d
   \<and> budgets (upsertAccounts now as d) = budgets d"
  unfolding upsertAccounts_def
  by (induction as arbitrary: d) (simp_all add: upsert_account_frame)

lemma page_accounts_frame:
  "transactions (fold (upsert_page_accounts now itemId) ps d) = transactions d
   \<and> sync_state (fold (upsert_page_accounts now itemId) ps d) = sync_state d
   \<and> tag_rules (fold (upsert_page_accounts now itemId) ps d) = tag_rules d
   \<and> budgets (fold (upsert_page_accounts now itemId) ps d) = budgets d"
  by (induction ps arbitrary: d) (simp_all add: upsert_page_accounts_def upsertAccounts_frame)

lemma start_cursor_cong: "sync_state d' = sync_state d \<Longrightarrow> start_cursor itemId d' = start_cursor itemId d"
  by (simp add: start_cursor_def getSyncState_def)

lemma sql_upsert_find:
  assumes "\<And>r. key (u r) = key r" and "key n = k"
  shows "find (\<lambda>r. key r = k) (sql_upsert (\<lambda>r. key r = k) u n rs)
    = Some (case find (\<lambda>r. key r = k) rs of None \<Rightarrow> n | Some r \<Rightarrow> u r)"
  using assms by (induction rs) auto

lemma start_cursor_set: "start_cursor itemId (setSyncState now itemId cur d) = cur"
proof -
  have "getSyncState itemId (setSyncState now itemId cur d)
      = Some (case find (\<lambda>s. item_id s = itemId) (sync_state d) of
                None \<Rightarrow> \<lparr>item_id = itemId, cursor = cur, last_synced_at = now\<rparr>
              | Some s \<Rightarrow> s\<lparr>cursor := cur, last_synced_at := now\<rparr>)"
    unfolding getSyncState_def setSyncState_def
    using sql_upsert_find [where key = item_id and k = itemId
        and u = "\<lambda>s. s\<lparr>cursor := cur, last_synced_at := now\<rparr>"
        and n = "\<lparr>item_id = itemId, cursor = cur, last_synced_at = now\<rparr>"
        and rs = "sync_state d"]
    by simp
  then show ?thesis by (simp add: start_cursor_def split: option.splits)
qed

lemma syncItem_fails:
  assumes "pass_fails plaid accessToken (start_cursor itemId d) ps msg"
  shows "syncItem plaid now accessToken itemId d
    = Some (Inl (SyncError (''Sync failed for item '' @ itemId @ '': '' @ msg)),
        fold (upsert_page_accounts now itemId) ps d)"
  unfolding syncItem_def sync_loop_fails [OF assms] by simp

lemma syncItem_pass:
  assumes "pass_pages plaid accessToken (start_cursor itemId d) ps"
  shows "syncItem plaid now accessToken itemId d
    = (case upsertTransactions
              (map mapPlaidTransaction (concat (map added ps) @ concat (map modified ps)))
              (fold (upsert_page_accounts now itemId) ps d) of
         Inl e \<Rightarrow> Some (Inl e, fold (upsert_page_accounts now itemId) ps d)
       | Inr d2 \<Rightarrow>
           Some (Inr (sync_response ps),
             setSyncState now itemId (next_cursor (last ps))
               (removeTransactions (concat (map removed_ids ps)) d2)))"
  unfolding syncItem_def sync_loop_pass [OF assms] fold_accumulate_empty commit_batch_eq
  by (simp add: batch_of_def sync_response_def split: sum.splits)

text \<open>Every pass that returns.\<close>

lemma syncItem_cases:
  assumes "syncItem plaid now accessToken itemId d = Some (res, d')"
  shows "((\<exists>e. res = Inl e) \<and> transactions d' = transactions d \<and> sync_state d' = sync_state d)
     \<or> (\<exists>qs d2. pass_pages plaid accessToken (start_cursor itemId d) qs
           \<and> upsertTransactions
                (map mapPlaidTransaction (concat (map added qs) @ concat (map modified qs)))
                (fold (upsert_page_accounts now itemId) qs d) = Inr d2
           \<and> d' = setSyncState now itemId (next_cursor (last qs))
                    (removeTransactions (concat (map removed_ids qs)) d2)
           \<and> start_cursor itemId d' = next_cursor (last qs)
           \<and> res = Inr (sync_response qs))"
proof -
  from assms obtain y where
    "sync_loop plaid now accessToken itemId (start_cursor itemId d) empty_batch d = Some y"
    by (auto simp: syncItem_def split: option.splits)
  from sync_loop_complete [OF this] show ?thesis
  proof
    assume "\<exists>qs. pass_pages plaid accessToken (start_cursor itemId d) qs"
    then obtain qs where qs: "pass_pages plaid accessToken (start_cursor itemId d) qs" by blast
    show ?thesis
    proof (cases "upsertTransactions
              (map mapPlaidTransaction (concat (map added qs) @ concat (map modified qs)))
              (fold (upsert_page_accounts now itemId) qs d)")
      case (Inl e)
      then have "res = Inl e \<and> d' = fold (upsert_page_accounts now itemId) qs d"
        using assms unfolding syncItem_pass [OF qs] by simp
      then show ?thesis by (simp add: page_accounts_frame)
    next
      case (Inr d2)
      then have "res = Inr (sync_response qs)
          \<and> d' = setSyncState now itemId (next_cursor (last qs))
                    (removeTransactions (concat (map removed_ids qs)) d2)"
        using assms unfolding syncItem_pass [OF qs] by simp
      then show ?thesis using qs Inr start_cursor_set by blast
    qed
  next
    assume "\<exists>qs msg. pass_fails plaid accessToken (start_cursor itemId d) qs msg"
    then obtain qs msg where "pass_fails plaid accessToken (start_cursor itemId d) qs msg"
      by blast
    from syncItem_fails [OF this, of now] assms
    have "res = Inl (SyncError (''Sync failed for item '' @ itemId @ '': '' @ msg))
        \<and> d' = fold (upsert_page_accounts now itemId) qs d"
      by simp
    then show ?thesis by (simp add: page_accounts_frame)
  qed
qed

lemma syncItem_Inl_frame:
  "syncItem plaid now accessToken itemId d = Some (Inl e, d') \<Longrightarrow>
   transactions d' = transactions d \<and> sync_state d' = sync_state d"
proof -
  assume "syncItem plaid now accessToken itemId d = Some (Inl e, d')"
  from syncItem_cases [OF this] show ?thesis
  proof
    assume "(\<exists>e'. Inl e = Inl e') \<and> transactions d' = transactions d
        \<and> sync_state d' = sync_state d"
    then show ?thesis by simp
  next
    assume "\<exists>qs d2. pass_pages plaid accessToken (start_cursor itemId d) qs
           \<and> upsertTransactions
                (map mapPlaidTransaction (concat (map added qs) @ concat (map modified qs)))
                (fold (upsert_page_accounts now itemId) qs d) = Inr d2
           \<and> d' = setSyncState now itemId (next_cursor (last qs))
                    (removeTransactions (concat (map removed_ids qs)) d2)
           \<and> start_cursor itemId d' = next_cursor (last qs)
           \<and> Inl e = Inr (sync_response qs)"
    then have False by simp
    then show ?thesis ..
  qed
qed

text \<open>
  C1. When a page request of the pass fails, after any number of pages,
  \<open>syncItem\<close> throws the \<open>SyncError\<close> with the message of the failure, and the
  transactions and the sync state are those from before the pass, so the next
  pass starts from the same cursor. When the feed ends the pass, \<open>syncItem\<close>
  returns. And every pass that returns either threw, with the transactions and
  the sync state untouched, or wrote in one step all of: the upsert of every added
  and then every modified transaction of all its pages, the deletion of every
  removed id of all its pages, and the cursor of its last page, which is the
  cursor the next pass starts from.
\<close>

theorem syncItem_atomic:
  "(pass_fails plaid accessToken (start_cursor itemId d) ps msg \<longrightarrow>
      (\<exists>d1. syncItem plaid now accessToken itemId d
              = Some (Inl (SyncError (''Sync failed for item '' @ itemId @ '': '' @ msg)), d1)
          \<and> transactions d1 = transactions d \<and> sync_state d1 = sync_state d
          \<and> start_cursor itemId d1 = start_cursor itemId d))
   \<and> (pass_pages plaid accessToken (start_cursor itemId d) ps \<longrightarrow>
      (\<exists>res1 d1. syncItem plaid now accessToken itemId d = Some (res1, d1)))
   \<and> (syncItem plaid now accessToken itemId d = Some (res, d') \<longrightarrow>
        ((\<exists>e. res = Inl e) \<and> transactions d' = transactions d \<and> sync_state d' = sync_state d)
      \<or> (\<exists>qs d2. pass_pages plaid accessToken (start_cursor itemId d) qs
            \<and> upsertTransactions
                 (map mapPlaidTransaction (concat (map added qs) @ concat (map modified qs)))
                 (fold (upsert_page_accounts now itemId) qs d) = Inr d2
            \<and> d' = setSyncState now itemId (next_cursor (last qs))
                     (removeTransactions (concat (map removed_ids qs)) d2)
            \<and> start_cursor itemId d' = next_cursor (last qs)
            \<and> res = Inr (sync_response qs)))"
proof -
  have 1: "pass_fails plaid accessToken (start_cursor itemId d) ps msg \<Longrightarrow>
      (\<exists>d1. syncItem plaid now accessToken itemId d
              = Some (Inl (SyncError (''Sync failed for item '' @ itemId @ '': '' @ msg)), d1)
          \<and> transactions d1 = transactions d \<and> sync_state d1 = sync_state d
          \<and> start_cursor itemId d1 = start_cursor itemId d)"
  proof -
    assume pf: "pass_fails plaid accessToken (start_cursor itemId d) ps msg"
    let ?d1 = "fold (upsert_page_accounts now itemId) ps d"
    have r: "syncItem plaid now accessToken itemId d
        = Some (Inl (SyncError (''Sync failed for item '' @ itemId @ '': '' @ msg)), ?d1)"
      by (rule syncItem_fails [OF pf])
    have f: "transactions ?d1 = transactions d" "sync_state ?d1 = sync_state d"
      by (simp_all add: page_accounts_frame)
    have "start_cursor itemId ?d1 = start_cursor itemId d"
      by (rule start_cursor_cong) (rule f(2))
    then show ?thesis using r f by blast
  qed
  have 2: "pass_pages plaid accessToken (start_cursor itemId d) ps \<Longrightarrow>
      (\<exists>res1 d1. syncItem plaid now accessToken itemId d = Some (res1, d1))"
    by (cases "upsertTransactions
              (map mapPlaidTransaction (concat (map added ps) @ concat (map modified ps)))
              (fold (upsert_page_accounts now itemId) ps d)")
      (simp_all add: syncItem_pass)
  show ?thesis
    by (intro conjI impI) (erule 1, erule 2, erule syncItem_cases)
qed

theorem syncItem_atomic_witness:
  "pass_fails feed_breaks ''token_B'' (start_cursor ''item_1'' db_one_txn) [page1] ''ETIMEDOUT''
   \<and> syncItem feed_breaks clock0 ''token_B'' ''item_1'' db_one_txn
      = Some (Inl (SyncError ''Sync failed for item item_1: ETIMEDOUT''),
          db_one_txn\<lparr>accounts := [synced_account]\<rparr>)
   \<and> pass_pages feed_ok ''token_B'' (start_cursor ''item_1'' db_one_txn) [page1, page2]
   \<and> syncItem feed_ok clock0 ''token_B'' ''item_1'' db_one_txn
      = Some (Inr synced_response, db_synced)
   \<and> start_cursor ''item_1'' db_synced = ''cursor_after_page2''"
proof -
  have f: "pass_fails feed_breaks ''token_B'' (start_cursor ''item_1'' db_one_txn) [page1]
      ''ETIMEDOUT''"
    by code_simp
  have p: "pass_pages feed_ok ''token_B'' (start_cursor ''item_1'' db_one_txn) [page1, page2]"
    by code_simp
  have r1: "syncItem feed_breaks clock0 ''token_B'' ''item_1'' db_one_txn
      = Some (Inl (SyncError ''Sync failed for item item_1: ETIMEDOUT''),
          db_one_txn\<lparr>accounts := [synced_account]\<rparr>)"
    by code_simp
  have r2: "syncItem feed_ok clock0 ''token_B'' ''item_1'' db_one_txn
      = Some (Inr synced_response, db_synced)"
    by code_simp
  have c: "start_cursor ''item_1'' db_synced = ''cursor_after_page2''"
    by code_simp
  show ?thesis
    using f p r1 r2 c
      syncItem_atomic [of feed_breaks "''token_B''" "''item_1''" db_one_txn "[page1]"
        "''ETIMEDOUT''" clock0 "Inl (SyncError ''Sync failed for item item_1: ETIMEDOUT'')"
        "db_one_txn\<lparr>accounts := [synced_account]\<rparr>"]
      syncItem_atomic [of feed_ok "''token_B''" "''item_1''" db_one_txn "[page1, page2]"
        "''ETIMEDOUT''" clock0 "Inr synced_response" db_synced]
    by blast
qed

section \<open>Reconciling all items\<close>

lemma sync_items_append:
  "sync_items plaid now (pre @ post) acc d
    = (case sync_items plaid now pre acc d of
         None \<Rightarrow> None
       | Some (Inl e, d1) \<Rightarrow> Some (Inl e, d1)
       | Some (Inr acc1, d1) \<Rightarrow> sync_items plaid now post acc1 d1)"
  by (induction pre arbitrary: acc d) (auto split: option.splits sum.splits)

text \<open>
  C2, as amended. When the items \<open>pre\<close> are reconciled and the pass of the next
  item throws, \<open>syncAll\<close> throws that error and stops: the transactions and the
  sync state are those the completed items left, nothing of the failing pass is
  among them, and the items \<open>post\<close> after the failing one are not reconciled.
\<close>

theorem syncAll_stops_at_failure:
  assumes "sync_items plaid now pre zero_totals d = Some (Inr totals, d1)"
    and "syncItem plaid now (fst item) (snd item) d1 = Some (Inl e, d2)"
  shows "syncAll plaid now (pre @ item # post) d = Some (Inl e, d2)
     \<and> transactions d2 = transactions d1 \<and> sync_state d2 = sync_state d1"
proof -
  have "sync_items plaid now (item # post) totals d1 = Some (Inl e, d2)"
    using assms(2) by simp
  then have "sync_items plaid now (pre @ item # post) zero_totals d = Some (Inl e, d2)"
    using assms(1) by (simp add: sync_items_append)
  then show ?thesis
    using syncItem_Inl_frame [OF assms(2)] by (simp add: syncAll_def)
qed

theorem syncAll_stops_at_failure_witness:
  "sync_items feed_two_items clock0 [(''token_B'', ''item_1'')] zero_totals db_one_txn
      = Some (Inr synced_response, db_synced)
   \<and> syncItem feed_two_items clock0 ''token_A'' ''item_A'' db_synced
      = Some (Inl (SyncError ''Sync failed for item item_A: ETIMEDOUT''), db_synced)
   \<and> syncAll feed_two_items clock0
        [(''token_B'', ''item_1''), (''token_A'', ''item_A''), (''token_B'', ''item_2'')] db_one_txn
      = Some (Inl (SyncError ''Sync failed for item item_A: ETIMEDOUT''), db_synced)"
proof -
  have a: "sync_items feed_two_items clock0 [(''token_B'', ''item_1'')] zero_totals db_one_txn
      = Some (Inr synced_response, db_synced)"
    by code_simp
  have b: "syncItem feed_two_items clock0 (fst (''token_A'', ''item_A''))
      (snd (''token_A'', ''item_A'')) db_synced
      = Some (Inl (SyncError ''Sync failed for item item_A: ETIMEDOUT''), db_synced)"
    by code_simp
  show ?thesis
    using a b syncAll_stops_at_failure [OF a b, of "[(''token_B'', ''item_2'')]"]
    by simp
qed

text \<open>
  C2 as stated fails on the items after the failing one: with \<open>item_A\<close> failing
  first, \<open>syncAll\<close> throws and leaves the store as it was, with no sync state for
  \<open>item_1\<close>, although the pass of \<open>item_1\<close> alone succeeds on that store.
\<close>

theorem syncAll_remaining_items_counterexample:
  "syncAll feed_two_items clock0 [(''token_A'', ''item_A''), (''token_B'', ''item_1'')] db_one_txn
      = Some (Inl (SyncError ''Sync failed for item item_A: ETIMEDOUT''), db_one_txn)
   \<and> getSyncState ''item_1'' db_one_txn = None
   \<and> syncItem feed_two_items clock0 ''token_B'' ''item_1'' db_one_txn
      = Some (Inr synced_response, db_synced)"
  by code_simp

end
